theory Spec2Isabelle
  imports Main
begin

section \<open>csoap: route registry and request dispatcher (src/csoap/rest_server.cc)\<close>

subsection \<open>Data model\<close>

text \<open>
  An abnormal end of a call: the \<^verbatim>\<open>assert\<close> at the head of \<^verbatim>\<open>AddService\<close> and of
  \<^verbatim>\<open>GetService\<close> aborts the program when its argument is a null pointer.
\<close>

datatype abort = AssertionFailed

text \<open>The two syntax options \<^verbatim>\<open>AddService\<close> passes to \<^verbatim>\<open>std::regex::assign\<close>.\<close>

datatype syntax_option = ECMAScript | icase

text \<open>
  \<^verbatim>\<open>ServiceItem\<close>: the service pointer (\<open>None\<close> is the null \<^verbatim>\<open>RestServicePtr\<close>), the
  pattern text and the compiled pattern. The type \<open>'rx\<close> is \<^verbatim>\<open>std::regex\<close>.
\<close>

record ('svc, 'rx) ServiceItem =
  service :: "'svc option"
  url :: string
  url_regex :: 'rx

record ('svc, 'rx) RestServiceManager =
  service_items :: "('svc, 'rx) ServiceItem list"

text \<open>
  The standard regex library is a parameter of the model:
  \<^item> \<open>regex_assign p flags\<close> is \<^verbatim>\<open>std::regex::assign(p, flags)\<close>: \<open>None\<close> when it throws
    \<^verbatim>\<open>std::regex_error\<close>, the compiled pattern otherwise;
  \<^item> \<open>regex_match rx s\<close> is \<^verbatim>\<open>std::regex_match(s, match, rx)\<close>: \<open>None\<close> when it returns
    false, otherwise \<open>Some m\<close> with \<open>m\<close> the strings \<^verbatim>\<open>match[0].str()\<close>, ...,
    \<^verbatim>\<open>match[match.size() - 1].str()\<close>.
\<close>

type_synonym 'rx regex_assign = "string \<Rightarrow> syntax_option list \<Rightarrow> 'rx option"
type_synonym 'rx regex_match = "'rx \<Rightarrow> string \<Rightarrow> string list option"

subsection \<open>RestServiceManager\<close>

definition AddService ::
  "'rx regex_assign \<Rightarrow> ('svc, 'rx) RestServiceManager \<Rightarrow> 'svc option \<Rightarrow> string
    \<Rightarrow> abort + (bool \<times> ('svc, 'rx) RestServiceManager)" where
  "AddService regex_assign m svc u =
     (case svc of
        None \<Rightarrow> Inl AssertionFailed
      | Some s \<Rightarrow>
          (let flags = [ECMAScript, icase] in
           case regex_assign u flags of
             Some rx \<Rightarrow>
               Inr (True,
                    m\<lparr>service_items :=
                        service_items m @ [\<lparr>service = Some s, url = u, url_regex = rx\<rparr>]\<rparr>)
           | None \<Rightarrow> Inr (False, m)))"

text \<open>
  The inner loop of \<^verbatim>\<open>GetService\<close>:
  \<^verbatim>\<open>for (size_t i = 1; i < match.size(); ++i) sub_matches->push_back(match[i].str());\<close>
\<close>

function push_sub_matches :: "nat \<Rightarrow> string list \<Rightarrow> string list \<Rightarrow> string list" where
  "push_sub_matches i match sub_matches =
     (if i < length match
      then push_sub_matches (i + 1) match (sub_matches @ [match ! i])
      else sub_matches)"
  by pat_completeness auto
termination
  by (relation "measure (\<lambda>(i, match, sub_matches). length match - i)") auto

declare push_sub_matches.simps [simp del]

text \<open>The outer loop of \<^verbatim>\<open>GetService\<close> over \<^verbatim>\<open>service_items_\<close>, front to back.\<close>

fun GetService_items ::
  "'rx regex_match \<Rightarrow> ('svc, 'rx) ServiceItem list \<Rightarrow> string \<Rightarrow> string list
    \<Rightarrow> 'svc option \<times> string list" where
  "GetService_items regex_match [] u sub_matches = (None, sub_matches)"
| "GetService_items regex_match (item # items) u sub_matches =
     (case regex_match (url_regex item) u of
        Some match \<Rightarrow> (service item, push_sub_matches 1 match sub_matches)
      | None \<Rightarrow> GetService_items regex_match items u sub_matches)"

text \<open>
  \<^verbatim>\<open>GetService(url, sub_matches)\<close>. The output vector is passed by pointer: \<open>None\<close> is
  the null pointer, \<open>Some v\<close> a vector holding \<open>v\<close>. The result is the returned service
  pointer and the vector after the call.
\<close>

definition GetService ::
  "'rx regex_match \<Rightarrow> ('svc, 'rx) RestServiceManager \<Rightarrow> string \<Rightarrow> string list option
    \<Rightarrow> abort + ('svc option \<times> string list)" where
  "GetService regex_match m u sub_matches =
     (case sub_matches of
        None \<Rightarrow> Inl AssertionFailed
      | Some v \<Rightarrow> Inr (GetService_items regex_match (service_items m) u v))"

subsection \<open>The inbound request and the session\<close>

text \<open>
  \<^verbatim>\<open>HttpRequest\<close> (src/csoap/http_request.h): the members \<^verbatim>\<open>method_\<close>, \<^verbatim>\<open>url_\<close>,
  \<^verbatim>\<open>host_\<close> and \<^verbatim>\<open>port_\<close>, and the body that \<^verbatim>\<open>content()\<close> of the base class
  \<^verbatim>\<open>HttpMessage\<close> returns.
\<close>

record HttpRequest =
  req_method :: string
  req_url :: string
  req_host :: string
  req_port :: string
  req_content :: string

text \<open>The two members of \<^verbatim>\<open>HttpStatus::Enum\<close> that the dispatcher uses.\<close>

datatype HttpStatus = kOK | kBadRequest

text \<open>
  Modelled from the spec: the numeric values of \<^verbatim>\<open>HttpStatus::kOK\<close> and
  \<^verbatim>\<open>HttpStatus::kBadRequest\<close>, whose declaration is not among the sources
  (``HTTP status 400 for unparsable target or no matching route, and 200 ... on
  successful dispatch'').
\<close>

fun status_code :: "HttpStatus \<Rightarrow> nat" where
  "status_code kOK = 200"
| "status_code kBadRequest = 400"

text \<open>
  Modelled from the spec: the session collaborator, whose class is not among the sources
  (``\<^verbatim>\<open>request()\<close>, \<^verbatim>\<open>SetResponseStatus(code)\<close>,
  \<^verbatim>\<open>SetResponseContent(content_type, length, body)\<close>, \<^verbatim>\<open>SendResponse()\<close>''). A session is
  the request it carries and the calls made on it so far, oldest first.
\<close>

datatype session_call =
  SetResponseStatusCall HttpStatus
| SetResponseContentCall string nat string
| SendResponseCall

record HttpSession =
  session_request :: HttpRequest
  session_calls :: "session_call list"

definition SetResponseStatus :: "HttpSession \<Rightarrow> HttpStatus \<Rightarrow> HttpSession" where
  "SetResponseStatus session status =
     session\<lparr>session_calls := session_calls session @ [SetResponseStatusCall status]\<rparr>"

definition SetResponseContent :: "HttpSession \<Rightarrow> string \<Rightarrow> nat \<Rightarrow> string \<Rightarrow> HttpSession" where
  "SetResponseContent session content_type content_length content =
     session\<lparr>session_calls :=
       session_calls session @ [SetResponseContentCall content_type content_length content]\<rparr>"

definition SendResponse :: "HttpSession \<Rightarrow> HttpSession" where
  "SendResponse session = session\<lparr>session_calls := session_calls session @ [SendResponseCall]\<rparr>"

text \<open>
  The class \<^verbatim>\<open>Url\<close> (csoap/url.h) is not among the sources. An object of it is what
  \<^verbatim>\<open>IsValid()\<close> and \<^verbatim>\<open>path()\<close> return; its constructor is a parameter of the dispatcher.
\<close>

record Url =
  IsValid :: bool
  path :: string

text \<open>
  \<^verbatim>\<open>service->Handle(method, content, &content_out)\<close> is the virtual method of the matched
  service: a parameter, given the service, the method, the request body and the output
  string before the call, and returning the output string after it.
\<close>

type_synonym 'svc handle = "'svc \<Rightarrow> string \<Rightarrow> string \<Rightarrow> string \<Rightarrow> string"

subsection \<open>RestRequestHandler\<close>

definition RegisterService ::
  "'rx regex_assign \<Rightarrow> ('svc, 'rx) RestServiceManager \<Rightarrow> 'svc option \<Rightarrow> string
    \<Rightarrow> abort + (bool \<times> ('svc, 'rx) RestServiceManager)" where
  "RegisterService regex_assign service_manager svc u =
     AddService regex_assign service_manager svc u"

text \<open>
  \<^verbatim>\<open>HandleSession(session)\<close>. The parameter \<open>kTextJsonUtf8\<close> is the content-type constant
  of that name, declared outside the sources. The result is the returned status and the
  session after the call.
\<close>

definition HandleSession ::
  "(string \<Rightarrow> Url) \<Rightarrow> 'rx regex_match \<Rightarrow> 'svc handle \<Rightarrow> string
    \<Rightarrow> ('svc, 'rx) RestServiceManager \<Rightarrow> HttpSession \<Rightarrow> abort + (HttpStatus \<times> HttpSession)" where
  "HandleSession Url_of regex_match Handle kTextJsonUtf8 service_manager session =
     (let u = Url_of (req_url (session_request session)) in
      if \<not> IsValid u
      then Inr (kBadRequest, SendResponse (SetResponseStatus session kBadRequest))
      else
        (case GetService regex_match service_manager (path u) (Some []) of
           Inl a \<Rightarrow> Inl a
         | Inr (svc, sub_matches) \<Rightarrow>
             (case svc of
                None \<Rightarrow> Inr (kBadRequest, SendResponse (SetResponseStatus session kBadRequest))
              | Some s \<Rightarrow>
                  (let content =
                         Handle s (req_method (session_request session)) (req_content (session_request session)) []
                   in Inr (kOK,
                           SendResponse
                             (SetResponseContent (SetResponseStatus session kOK)
                                kTextJsonUtf8 (length content) content))))))"

section \<open>webcc: the client request engine (src/webcc/http_client_base.cc)\<close>

subsection \<open>Data model\<close>

text \<open>The members of the enum \<^verbatim>\<open>Error\<close> that the engine returns.\<close>

datatype Error =
  kNoError
| kHostResolveError
| kEndpointConnectError
| kSocketWriteError
| kSocketReadError
| kHttpError

text \<open>
  \<^verbatim>\<open>boost::system::error_code\<close>: \<open>success\<close> is the value that converts to false; the
  engine names \<open>would_block\<close> (the initial value of the local \<^verbatim>\<open>ec\<close> in
  \<^verbatim>\<open>DoReadResponse\<close>) and \<open>operation_aborted\<close>; every other code is a \<open>failure\<close>.
\<close>

datatype error_code = success | would_block | operation_aborted | eof | failure nat

text \<open>
  The calls the engine makes on its collaborators (the execution context, the resolver,
  the deadline timer and the socket hooks of the subclass), as they would appear in a
  trace. \<open>SocketAsyncReadSomeCall n\<close> is a read posted on a buffer of \<open>n\<close> bytes,
  \<open>ExpiresFromNowCall s\<close> arms the timer \<open>s\<close> seconds ahead.
\<close>

datatype client_call =
  RestartCall
| ResolveCall string string
| SocketConnectCall
| SocketWriteCall
| ExpiresFromNowCall int
| AsyncWaitCall
| SocketAsyncReadSomeCall nat
| SocketCloseCall
| DeadlineCancelCall

text \<open>
  The members of \<^verbatim>\<open>HttpClientBase\<close>. \<open>buffer\<close> is the size of the vector \<^verbatim>\<open>buffer_\<close> (the
  bytes a read leaves in it come with the read's completion, below); \<open>response\<close> and
  \<open>response_parser\<close> are the objects the two owning pointers hold; \<open>calls\<close> is the trace
  of collaborator calls so far, oldest first.
\<close>

record ('p, 'r) HttpClientBase =
  buffer :: nat
  timeout_seconds :: int
  stopped :: bool
  timed_out :: bool
  error :: Error
  response :: 'r
  response_parser :: 'p
  calls :: "client_call list"

text \<open>
  What the engine consumes from outside \<^verbatim>\<open>http_client_base.cc\<close>:
  \<^item> \<open>default_port\<close>: the port the subclass passes to \<^verbatim>\<open>DoConnect\<close>;
  \<^item> \<open>resolve host port\<close>: the error code and the endpoints of \<^verbatim>\<open>resolver.resolve\<close>;
  \<^item> \<open>SocketConnect\<close>, \<open>SocketWrite\<close>: the error code the socket hook reports;
  \<^item> \<open>new_HttpResponse\<close>, \<open>new_HttpResponseParser\<close>: a freshly constructed response and
    a parser bound to it;
  \<^item> \<open>Parse p r data\<close>: \<^verbatim>\<open>response_parser_->Parse(buffer_.data(), length)\<close> on the bytes
    \<open>data\<close>, giving its boolean result and the parser and response after the call;
  \<^item> \<open>finished p\<close>: \<^verbatim>\<open>response_parser_->finished()\<close>.
\<close>

record ('ep, 'p, 'r) collaborators =
  default_port :: string
  resolve :: "string \<Rightarrow> string \<Rightarrow> error_code \<times> 'ep"
  SocketConnect :: "'ep \<Rightarrow> error_code"
  SocketWrite :: "HttpRequest \<Rightarrow> error_code"
  new_HttpResponse :: 'r
  new_HttpResponseParser :: 'p
  Parse :: "'p \<Rightarrow> 'r \<Rightarrow> string \<Rightarrow> bool \<times> 'p \<times> 'r"
  finished :: "'p \<Rightarrow> bool"

text \<open>
  One handler that \<^verbatim>\<open>io_context_.run_one()\<close> dispatches:
  \<^item> \<open>ReadCompletion ec data\<close>: the \<^verbatim>\<open>read_handler\<close> of the pending read, called with
    \<^verbatim>\<open>inner_ec = ec\<close> and \<^verbatim>\<open>length = length data\<close>, the buffer holding \<open>data\<close>;
  \<^item> \<open>DeadlineCompletion ec expired\<close>: \<^verbatim>\<open>OnDeadline(ec)\<close>, where \<open>expired\<close> is what
    \<^verbatim>\<open>deadline_.expires_at() <= now()\<close> evaluates to when the handler runs.

  A schedule is the sequence of handlers that the successive \<^verbatim>\<open>run_one()\<close> calls
  dispatch; after its last handler no handler ever becomes ready.
\<close>

datatype completion =
  ReadCompletion error_code string
| DeadlineCompletion error_code bool

subsection \<open>Settings and teardown\<close>

definition SetTimeout :: "('p, 'r) HttpClientBase \<Rightarrow> int \<Rightarrow> ('p, 'r) HttpClientBase" where
  "SetTimeout c seconds = (if seconds > 0 then c\<lparr>timeout_seconds := seconds\<rparr> else c)"

definition Stop :: "('p, 'r) HttpClientBase \<Rightarrow> ('p, 'r) HttpClientBase" where
  "Stop c =
     (if stopped c then c
      else c\<lparr>stopped := True, calls := calls c @ [SocketCloseCall, DeadlineCancelCall]\<rparr>)"

definition DoWaitDeadline :: "('p, 'r) HttpClientBase \<Rightarrow> ('p, 'r) HttpClientBase" where
  "DoWaitDeadline c = c\<lparr>calls := calls c @ [AsyncWaitCall]\<rparr>"

definition OnDeadline ::
  "('p, 'r) HttpClientBase \<Rightarrow> error_code \<Rightarrow> bool \<Rightarrow> ('p, 'r) HttpClientBase" where
  "OnDeadline c ec expired =
     (if stopped c then c
      else if expired then Stop (c\<lparr>timed_out := True\<rparr>)
      else DoWaitDeadline c)"

subsection \<open>The three phases\<close>

text \<open>
  Modelled from the spec: \<^verbatim>\<open>request.port(default_port)\<close> of webcc's request class, which
  is not among the sources (``\<^verbatim>\<open>message.port()\<close> (or a collaborator-supplied default
  port)'').
\<close>

definition port_or :: "HttpRequest \<Rightarrow> string \<Rightarrow> string" where
  "port_or request dflt = (if req_port request = [] then dflt else req_port request)"

definition DoConnect ::
  "('ep, 'p, 'r) collaborators \<Rightarrow> ('p, 'r) HttpClientBase \<Rightarrow> HttpRequest \<Rightarrow> string
    \<Rightarrow> ('p, 'r) HttpClientBase \<times> Error" where
  "DoConnect io c request dflt =
     (let port = port_or request dflt;
          (ec, endpoints) = resolve io (req_host request) port;
          c = c\<lparr>calls := calls c @ [ResolveCall (req_host request) port]\<rparr>
      in
      if ec \<noteq> success then (c, kHostResolveError)
      else
        (let ec = SocketConnect io endpoints;
             c = c\<lparr>calls := calls c @ [SocketConnectCall]\<rparr>
         in
         if ec \<noteq> success then (Stop c, kEndpointConnectError)
         else (c, kNoError)))"

text \<open>
  Modelled from the spec: \<^verbatim>\<open>Connect\<close>, the hook that subclasses outside the sources
  define; it hands the request to \<^verbatim>\<open>DoConnect\<close> with the default port of its scheme
  (``resolve \<^verbatim>\<open>message.host()\<close> and \<^verbatim>\<open>message.port()\<close> (or a collaborator-supplied default
  port) to one or more endpoints; connect to the first viable one'').
\<close>

definition Connect ::
  "('ep, 'p, 'r) collaborators \<Rightarrow> ('p, 'r) HttpClientBase \<Rightarrow> HttpRequest
    \<Rightarrow> ('p, 'r) HttpClientBase \<times> Error" where
  "Connect io c request = DoConnect io c request (default_port io)"

definition SendReqeust ::
  "('ep, 'p, 'r) collaborators \<Rightarrow> ('p, 'r) HttpClientBase \<Rightarrow> HttpRequest
    \<Rightarrow> ('p, 'r) HttpClientBase \<times> Error" where
  "SendReqeust io c request =
     (let ec = SocketWrite io request;
          c = c\<lparr>calls := calls c @ [SocketWriteCall]\<rparr>
      in
      if ec \<noteq> success then (Stop c, kSocketWriteError)
      else (c, kNoError))"

text \<open>
  \<^verbatim>\<open>DoReadResponse(error)\<close> posts a read and then runs
  \<^verbatim>\<open>do { io_context_.run_one(); } while (ec == would_block);\<close>, here \<open>run_one_loop\<close>. Each
  \<^verbatim>\<open>run_one()\<close> takes the next handler of the schedule:
  \<^item> a deadline handler runs \<^verbatim>\<open>OnDeadline\<close> and leaves \<^verbatim>\<open>ec\<close> alone, so the loop goes on;
  \<^item> the read handler sets \<^verbatim>\<open>ec = inner_ec\<close> and runs the lambda's body, which may call
    \<^verbatim>\<open>DoReadResponse\<close> again from inside the handler; when the handler returns the loop
    ends, unless \<^verbatim>\<open>inner_ec\<close> was \<open>would_block\<close> itself: then \<^verbatim>\<open>ec\<close> keeps that value with
    no read pending that could change it, and the loop never ends.
  The result is \<open>None\<close> when the loop never ends (also when the schedule runs out while
  the loop waits), and otherwise the engine, \<^verbatim>\<open>*error\<close> and the rest of the schedule
  when \<^verbatim>\<open>DoReadResponse\<close> returns.
\<close>

function (sequential) DoReadResponse ::
  "('ep, 'p, 'r) collaborators \<Rightarrow> ('p, 'r) HttpClientBase \<Rightarrow> Error \<Rightarrow> completion list
    \<Rightarrow> (('p, 'r) HttpClientBase \<times> Error \<times> completion list) option"
and run_one_loop ::
  "('ep, 'p, 'r) collaborators \<Rightarrow> ('p, 'r) HttpClientBase \<Rightarrow> Error \<Rightarrow> completion list
    \<Rightarrow> (('p, 'r) HttpClientBase \<times> Error \<times> completion list) option" where
  "DoReadResponse io c err schedule =
     run_one_loop io (c\<lparr>calls := calls c @ [SocketAsyncReadSomeCall (buffer c)]\<rparr>) err schedule"
| "run_one_loop io c err [] = None"
| "run_one_loop io c err (DeadlineCompletion ec expired # schedule) =
     run_one_loop io (OnDeadline c ec expired) err schedule"
| "run_one_loop io c err (ReadCompletion inner_ec data # schedule) =
     (if inner_ec \<noteq> success \<or> length data = 0
      then (if inner_ec = would_block then None
            else Some (Stop c, kSocketReadError, schedule))
      else
        (case Parse io (response_parser c) (response c) data of
           (ok, p, r) \<Rightarrow>
             (let c = c\<lparr>response_parser := p, response := r\<rparr> in
              if \<not> ok then Some (Stop c, kHttpError, schedule)
              else if finished io p then Some (Stop c, err, schedule)
              else if \<not> stopped c then DoReadResponse io c err schedule
              else Some (c, err, schedule))))"
  by pat_completeness auto
termination
  by (relation "measure (\<lambda>x. case x of
        Inl (io, c, err, schedule) \<Rightarrow> 2 * length schedule + 1
      | Inr (io, c, err, schedule) \<Rightarrow> 2 * length schedule)") auto

definition ReadResponse ::
  "('ep, 'p, 'r) collaborators \<Rightarrow> ('p, 'r) HttpClientBase \<Rightarrow> completion list
    \<Rightarrow> (('p, 'r) HttpClientBase \<times> Error \<times> completion list) option" where
  "ReadResponse io c schedule =
     (let c = c\<lparr>calls := calls c @ [ExpiresFromNowCall (timeout_seconds c)]\<rparr>;
          c = DoWaitDeadline c
      in DoReadResponse io c kNoError schedule)"

subsection \<open>Request\<close>

text \<open>
  Modelled from the spec: the scoped \<^verbatim>\<open>BufferResizer\<close> (webcc/utility.h, not among the
  sources): ``resizes the working buffer if an override is given (restored afterward --
  scoped resize)''. Entering the scope gives the new size, leaving it gives back the
  size remembered on entry.
\<close>

definition BufferResizer_enter :: "nat \<Rightarrow> nat \<Rightarrow> nat" where
  "BufferResizer_enter old_size new_size = (if new_size \<noteq> 0 then new_size else old_size)"

definition BufferResizer_leave ::
  "nat \<Rightarrow> ('p, 'r) HttpClientBase \<Rightarrow> ('p, 'r) HttpClientBase" where
  "BufferResizer_leave old_size c = c\<lparr>buffer := old_size\<rparr>"

text \<open>
  \<^verbatim>\<open>Request(request, buffer_size)\<close> under a schedule. \<open>None\<close>: the call never returns.
  Otherwise the returned boolean, the engine after the call (the resizer's scope left on
  every return path) and the handlers of the schedule not yet dispatched.
\<close>

definition Request ::
  "('ep, 'p, 'r) collaborators \<Rightarrow> ('p, 'r) HttpClientBase \<Rightarrow> HttpRequest \<Rightarrow> nat
    \<Rightarrow> completion list \<Rightarrow> (bool \<times> ('p, 'r) HttpClientBase \<times> completion list) option" where
  "Request io c request buffer_size schedule =
     (let c = c\<lparr>calls := calls c @ [RestartCall]\<rparr>;
          c = c\<lparr>response := new_HttpResponse io\<rparr>;
          c = c\<lparr>response_parser := new_HttpResponseParser io\<rparr>;
          c = c\<lparr>stopped := False\<rparr>;
          c = c\<lparr>timed_out := False\<rparr>;
          c = c\<lparr>error := kNoError\<rparr>;
          old_size = buffer c;
          c = c\<lparr>buffer := BufferResizer_enter old_size buffer_size\<rparr>
      in
      case Connect io c request of
        (c, e) \<Rightarrow>
          (let c = c\<lparr>error := e\<rparr> in
           if e \<noteq> kNoError then Some (False, BufferResizer_leave old_size c, schedule)
           else
             (case SendReqeust io c request of
                (c, e) \<Rightarrow>
                  (let c = c\<lparr>error := e\<rparr> in
                   if e \<noteq> kNoError then Some (False, BufferResizer_leave old_size c, schedule)
                   else
                     (case ReadResponse io c schedule of
                        None \<Rightarrow> None
                      | Some (c, e, schedule) \<Rightarrow>
                          (let c = c\<lparr>error := e\<rparr> in
                           if e \<noteq> kNoError
                           then Some (False, BufferResizer_leave old_size c, schedule)
                           else Some (True, BufferResizer_leave old_size c, schedule)))))))"

subsection \<open>The engine at the start of the read loop\<close>

text \<open>
  When resolution, connection and write all succeed, \<^verbatim>\<open>Request\<close> reaches the first
  \<^verbatim>\<open>run_one()\<close> of \<^verbatim>\<open>DoReadResponse\<close> with the engine in this state: the per-call members
  reset, the buffer resized, and the calls of the connect and send phases, of
  \<^verbatim>\<open>ReadResponse\<close> and of the first posted read in the trace.
\<close>

definition read_phase_state ::
  "('ep, 'p, 'r) collaborators \<Rightarrow> ('p, 'r) HttpClientBase \<Rightarrow> HttpRequest \<Rightarrow> nat
    \<Rightarrow> ('p, 'r) HttpClientBase" where
  "read_phase_state io c request buffer_size =
     c\<lparr>response := new_HttpResponse io,
       response_parser := new_HttpResponseParser io,
       stopped := False,
       timed_out := False,
       buffer := BufferResizer_enter (buffer c) buffer_size,
       error := kNoError,
       calls := calls c @
         [RestartCall,
          ResolveCall (req_host request) (port_or request (default_port io)),
          SocketConnectCall,
          SocketWriteCall,
          ExpiresFromNowCall (timeout_seconds c),
          AsyncWaitCall,
          SocketAsyncReadSomeCall (BufferResizer_enter (buffer c) buffer_size)]\<rparr>"

section \<open>Example inputs\<close>

text \<open>
  The answers of the regex library on the patterns and paths of the example scenarios
  (a lone opening parenthesis is rejected; every other pattern used here compiles, and
  the compiled pattern is represented by its text). The table lists only the pairs the
  examples use.
\<close>

definition scenario_regex_assign :: "string regex_assign" where
  "scenario_regex_assign p flags = (if p = ''('' then None else Some p)"

definition scenario_regex_match :: "string regex_match" where
  "scenario_regex_match rx s =
     (if rx = ''/users/([0-9]+)'' \<and> s = ''/users/42'' then Some [''/users/42'', ''42'']
      else if rx = ''/a.*'' \<and> s = ''/ab'' then Some [''/ab'']
      else if rx = ''/ab'' \<and> s = ''/ab'' then Some [''/ab'']
      else None)"

definition scenario_registry :: "(string, string) RestServiceManager" where
  "scenario_registry =
     \<lparr>service_items =
        [\<lparr>service = Some ''users'', url = ''/users/([0-9]+)'', url_regex = ''/users/([0-9]+)''\<rparr>,
         \<lparr>service = Some ''first'', url = ''/a.*'', url_regex = ''/a.*''\<rparr>]\<rparr>"

text \<open>A URL parser that rejects the target of scenario 5 and takes any other as a path.\<close>

definition scenario_Url :: "string \<Rightarrow> Url" where
  "scenario_Url target =
     (if target = ''not a url'' then \<lparr>IsValid = False, path = []\<rparr>
      else \<lparr>IsValid = True, path = target\<rparr>)"

definition scenario_Handle :: "string handle" where
  "scenario_Handle s m body out = out @ ''{}''"

definition scenario_session :: "string \<Rightarrow> HttpSession" where
  "scenario_session target =
     \<lparr>session_request =
        \<lparr>req_method = ''GET'', req_url = target, req_host = ''localhost'',
         req_port = ''8080'', req_content = []\<rparr>,
      session_calls = []\<rparr>"

text \<open>
  Collaborators of the client engine: a resolver that fails on one host name, a socket
  that refuses one host and cannot write one body, and a parser that rejects a chunk
  starting with \<open>!\<close> and is finished after a chunk ending in a full stop. Endpoints are
  host names, the response is the text received, the parser state is its finished flag.
\<close>

definition scenario_io :: "(string, bool, string) collaborators" where
  "scenario_io =
     \<lparr>default_port = ''80'',
      resolve = (\<lambda>host port. if host = ''nowhere.invalid'' then (failure 1, []) else (success, host)),
      SocketConnect = (\<lambda>ep. if ep = ''refused.example'' then failure 2 else success),
      SocketWrite = (\<lambda>request. if req_content request = ''unwritable'' then failure 3 else success),
      new_HttpResponse = [],
      new_HttpResponseParser = False,
      Parse = (\<lambda>p r data. if take 1 data = ''!'' then (False, p, r)
                             else (True, p \<or> (data \<noteq> [] \<and> last data = CHR ''.''), r @ data)),
      finished = (\<lambda>p. p)\<rparr>"

definition scenario_request :: "string \<Rightarrow> string \<Rightarrow> HttpRequest" where
  "scenario_request host body =
     \<lparr>req_method = ''POST'', req_url = ''/'', req_host = host, req_port = [],
      req_content = body\<rparr>"

text \<open>An engine as a previous request that timed out has left it.\<close>

definition scenario_client :: "(bool, string) HttpClientBase" where
  "scenario_client =
     \<lparr>buffer = 1024, timeout_seconds = 30, stopped = True, timed_out = True,
      error = kSocketReadError, response = ''stale'', response_parser = True, calls = []\<rparr>"

section \<open>The route registry and the dispatcher: proofs\<close>

lemma push_sub_matches_drop: "push_sub_matches i match v = v @ drop i match"
proof (induction i match v rule: push_sub_matches.induct)
  case (1 i match v)
  show ?case
  proof (cases "i < length match")
    case True
    then have "push_sub_matches i match v = (v @ [match ! i]) @ drop (i + 1) match"
      using "1.IH" by (simp add: push_sub_matches.simps [of i])
    also have "\<dots> = v @ drop i match"
      using True by (simp add: Cons_nth_drop_Suc)
    finally show ?thesis .
  next
    case False
    then show ?thesis by (simp add: push_sub_matches.simps [of i])
  qed
qed

lemma drop_1_nths: "drop 1 match = map ((!) match) [1..<length match]"
  by (auto simp: list_eq_iff_nth_eq)

lemma push_sub_matches_nths:
  "push_sub_matches 1 match v = v @ map ((!) match) [1..<length match]"
  using push_sub_matches_drop [of 1 match v] drop_1_nths [of match] by simp

lemma GetService_items_first:
  assumes "i < length items"
    and "regex_match (url_regex (items ! i)) u = Some match"
    and "\<forall>k<i. regex_match (url_regex (items ! k)) u = None"
  shows "GetService_items regex_match items u v =
           (service (items ! i), v @ map ((!) match) [1..<length match])"
  using assms
proof (induction items arbitrary: i)
  case Nil
  then show ?case by simp
next
  case (Cons item items)
  show ?case
  proof (cases i)
    case 0
    with Cons.prems push_sub_matches_nths [of match v] show ?thesis by simp
  next
    case (Suc j)
    from Cons.prems(3) Suc have head: "regex_match (url_regex item) u = None"
      by auto
    from Cons.prems Suc have "\<forall>k<j. regex_match (url_regex (items ! k)) u = None"
      by auto
    with Cons.IH [of j] Cons.prems Suc head show ?thesis by simp
  qed
qed

lemma GetService_items_none:
  assumes "\<forall>item\<in>set items. regex_match (url_regex item) u = None"
  shows "GetService_items regex_match items u v = (None, v)"
  using assms by (induction items) auto

lemma GetService_items_cases:
  "(\<exists>i match. i < length items \<and> regex_match (url_regex (items ! i)) u = Some match
       \<and> (\<forall>k<i. regex_match (url_regex (items ! k)) u = None))
   \<or> (\<forall>item\<in>set items. regex_match (url_regex item) u = None)"
proof (induction items)
  case Nil
  then show ?case by simp
next
  case (Cons item items)
  show ?case
  proof (cases "regex_match (url_regex item) u")
    case (Some match)
    then have "0 < length (item # items) \<and> regex_match (url_regex ((item # items) ! 0)) u = Some match
       \<and> (\<forall>k<0. regex_match (url_regex ((item # items) ! k)) u = None)" by simp
    then show ?thesis by blast
  next
    case None
    from Cons.IH show ?thesis
    proof
      assume "\<exists>i match. i < length items \<and> regex_match (url_regex (items ! i)) u = Some match
       \<and> (\<forall>k<i. regex_match (url_regex (items ! k)) u = None)"
      then obtain i match where i: "i < length items"
        "regex_match (url_regex (items ! i)) u = Some match"
        "\<forall>k<i. regex_match (url_regex (items ! k)) u = None" by blast
      have "\<forall>k<Suc i. regex_match (url_regex ((item # items) ! k)) u = None"
        using None i(3) by (auto simp: less_Suc_eq_0_disj)
      with i have "Suc i < length (item # items) \<and>
          regex_match (url_regex ((item # items) ! Suc i)) u = Some match \<and>
          (\<forall>k<Suc i. regex_match (url_regex ((item # items) ! k)) u = None)" by simp
      then show ?thesis by blast
    next
      assume "\<forall>item\<in>set items. regex_match (url_regex item) u = None"
      with None show ?thesis by simp
    qed
  qed
qed

lemma AddService_push_back:
  "AddService regex_assign m (Some s) p = Inr (True, m') \<Longrightarrow>
     \<exists>rx. regex_assign p [ECMAScript, icase] = Some rx \<and>
       service_items m' = service_items m @ [\<lparr>service = Some s, url = p, url_regex = rx\<rparr>]"
  by (auto simp: AddService_def split: option.splits)


lemma GetService_items_find:
  "GetService_items regex_match items u v =
     (case find (\<lambda>item. regex_match (url_regex item) u \<noteq> None) items of
        None \<Rightarrow> (None, v)
      | Some item \<Rightarrow>
          (service item,
           v @ (case regex_match (url_regex item) u of
                  Some match \<Rightarrow> map ((!) match) [1..<length match]
                | None \<Rightarrow> [])))"
proof (induction items)
  case Nil
  then show ?case by simp
next
  case (Cons item items)
  show ?case
  proof (cases "regex_match (url_regex item) u")
    case None
    with Cons.IH show ?thesis by simp
  next
    case (Some match)
    with push_sub_matches_nths [of match v] show ?thesis by simp
  qed
qed

lemma AddService_keeps_services:
  assumes "\<forall>item\<in>set (service_items m). service item \<noteq> None"
    and "AddService regex_assign m svc p = Inr (b, m')"
  shows "\<forall>item\<in>set (service_items m'). service item \<noteq> None"
  using assms by (auto simp: AddService_def split: option.splits)

lemma GetService_first:
  assumes "i < length (service_items m)"
    and "regex_match (url_regex (service_items m ! i)) u = Some match"
    and "\<forall>k<i. regex_match (url_regex (service_items m ! k)) u = None"
  shows "GetService regex_match m u (Some v) =
           Inr (service (service_items m ! i), v @ map ((!) match) [1..<length match])"
proof -
  have "GetService_items regex_match (service_items m) u v =
           (service (service_items m ! i), v @ map ((!) match) [1..<length match])"
    using assms by (rule GetService_items_first)
  then show ?thesis
    unfolding GetService_def by simp
qed

text \<open>
  Claim C1. \<^verbatim>\<open>GetService\<close> scans \<^verbatim>\<open>service_items_\<close> from the front, and \<^verbatim>\<open>AddService\<close>
  appends at the back, so the order of the entries is the order of registration. If the
  entry at index \<open>i\<close> fully matches the path and no entry before it does, the handler
  returned is that of entry \<open>i\<close>, whatever the entries after it match; and it stays the
  handler returned after any further successful registration, however specific the new
  pattern.
\<close>

theorem GetService_first_registered_wins:
  assumes "i < length (service_items m)"
    and "regex_match (url_regex (service_items m ! i)) u = Some match"
    and "\<forall>k<i. regex_match (url_regex (service_items m ! k)) u = None"
  shows "(\<exists>subs. GetService regex_match m u (Some v) = Inr (service (service_items m ! i), subs)) \<and>
         (\<forall>s p m'. AddService regex_assign m (Some s) p = Inr (True, m') \<longrightarrow>
            (\<exists>subs. GetService regex_match m' u (Some v) =
               Inr (service (service_items m ! i), subs)))"
proof (intro conjI allI impI)
  have "GetService regex_match m u (Some v) =
      Inr (service (service_items m ! i), v @ map ((!) match) [1..<length match])"
    using assms by (rule GetService_first)
  then show "\<exists>subs. GetService regex_match m u (Some v) =
      Inr (service (service_items m ! i), subs)"
    by blast
next
  fix s p m'
  assume "AddService regex_assign m (Some s) p = Inr (True, m')"
  then obtain rx where m': "service_items m' =
      service_items m @ [\<lparr>service = Some s, url = p, url_regex = rx\<rparr>]"
    using AddService_push_back [of regex_assign m s p m'] by blast
  have nth: "service_items m' ! k = service_items m ! k" if "k \<le> i" for k
    using that assms(1) m' by (simp add: nth_append)
  have 1: "i < length (service_items m')"
    using assms(1) m' by simp
  have 2: "regex_match (url_regex (service_items m' ! i)) u = Some match"
    using assms(2) nth [of i] by simp
  have 3: "\<forall>k<i. regex_match (url_regex (service_items m' ! k)) u = None"
  proof (intro allI impI)
    fix k assume "k < i"
    then have "service_items m' ! k = service_items m ! k" "regex_match (url_regex (service_items m ! k)) u = None"
      using nth [of k] assms(3) by auto
    then show "regex_match (url_regex (service_items m' ! k)) u = None" by simp
  qed
  have "GetService regex_match m' u (Some v) =
      Inr (service (service_items m' ! i), v @ map ((!) match) [1..<length match])"
    using 1 2 3 by (rule GetService_first)
  then have "GetService regex_match m' u (Some v) =
      Inr (service (service_items m ! i), v @ map ((!) match) [1..<length match])"
    using nth [of i] by simp
  then show "\<exists>subs. GetService regex_match m' u (Some v) =
      Inr (service (service_items m ! i), subs)"
    by blast
qed

lemma scenario_ab:
  "GetService scenario_regex_match scenario_registry ''/ab'' (Some []) = Inr (Some ''first'', [])"
  by (simp add: GetService_def scenario_registry_def scenario_regex_match_def
      push_sub_matches.simps [of _ "[''/ab'']"])

theorem GetService_first_registered_wins_witness:
  "1 < length (service_items scenario_registry) \<and>
   scenario_regex_match (url_regex (service_items scenario_registry ! 1)) ''/ab'' = Some [''/ab''] \<and>
   GetService scenario_regex_match scenario_registry ''/ab'' (Some []) = Inr (Some ''first'', []) \<and>
   (\<exists>m'. AddService scenario_regex_assign scenario_registry (Some ''second'') ''/ab'' = Inr (True, m') \<and>
      scenario_regex_match (url_regex (service_items m' ! 2)) ''/ab'' = Some [''/ab''] \<and>
      GetService scenario_regex_match m' ''/ab'' (Some []) = Inr (Some ''first'', []))"
proof -
  let ?m' = "scenario_registry\<lparr>service_items := service_items scenario_registry @
        [\<lparr>service = Some ''second'', url = ''/ab'', url_regex = ''/ab''\<rparr>]\<rparr>"
  have 1: "1 < length (service_items scenario_registry)"
    by (simp add: scenario_registry_def)
  have 2: "scenario_regex_match (url_regex (service_items scenario_registry ! 1)) ''/ab'' = Some [''/ab'']"
    by (simp add: scenario_registry_def scenario_regex_match_def)
  have 3: "\<forall>k<1. scenario_regex_match (url_regex (service_items scenario_registry ! k)) ''/ab'' = None"
    by (simp add: scenario_registry_def scenario_regex_match_def)
  have svc: "service (service_items scenario_registry ! 1) = Some ''first''"
    by (simp add: scenario_registry_def)
  have b: "AddService scenario_regex_assign scenario_registry (Some ''second'') ''/ab'' = Inr (True, ?m')"
    by (simp add: AddService_def scenario_regex_assign_def)
  have c: "scenario_regex_match (url_regex (service_items ?m' ! 2)) ''/ab'' = Some [''/ab'']"
    by (simp add: scenario_registry_def scenario_regex_match_def)
  have th: "(\<exists>subs. GetService scenario_regex_match scenario_registry ''/ab'' (Some []) =
              Inr (service (service_items scenario_registry ! 1), subs)) \<and>
         (\<forall>s p m'. AddService scenario_regex_assign scenario_registry (Some s) p = Inr (True, m') \<longrightarrow>
            (\<exists>subs. GetService scenario_regex_match m' ''/ab'' (Some []) =
               Inr (service (service_items scenario_registry ! 1), subs)))"
    using 1 2 3 by (rule GetService_first_registered_wins)
  then have "\<exists>subs. GetService scenario_regex_match ?m' ''/ab'' (Some []) =
               Inr (service (service_items scenario_registry ! 1), subs)"
    using b by blast
  then obtain subs where d: "GetService scenario_regex_match ?m' ''/ab'' (Some []) =
               Inr (Some ''first'', subs)"
    using svc by auto
  have "subs = []"
    using d by (simp add: GetService_def scenario_registry_def scenario_regex_match_def
      push_sub_matches.simps [of _ "[''/ab'']"])
  with d have e: "GetService scenario_regex_match ?m' ''/ab'' (Some []) = Inr (Some ''first'', [])"
    by simp
  from 1 2 scenario_ab b c e show ?thesis by blast
qed

lemma scenario_users_42:
  "GetService scenario_regex_match scenario_registry ''/users/42'' (Some v) =
     Inr (Some ''users'', v @ [''42''])"
  by (simp add: GetService_def scenario_registry_def scenario_regex_match_def
      push_sub_matches_drop)

lemma scenario_users_abc:
  "GetService scenario_regex_match scenario_registry ''/users/abc'' (Some v) = Inr (None, v)"
  by (simp add: GetService_def scenario_registry_def scenario_regex_match_def)

text \<open>
  Claim C3. When the regex library rejects the pattern (\<^verbatim>\<open>assign\<close> throws
  \<^verbatim>\<open>std::regex_error\<close>), \<^verbatim>\<open>AddService\<close> and \<^verbatim>\<open>RegisterService\<close> return false and the
  registry is the one before the call: its entry sequence is unchanged and every later
  \<^verbatim>\<open>GetService\<close> answers as it did before.
\<close>

theorem AddService_invalid_pattern_unchanged:
  assumes "regex_assign p [ECMAScript, icase] = None"
  shows "AddService regex_assign m (Some s) p = Inr (False, m) \<and>
         RegisterService regex_assign m (Some s) p = Inr (False, m) \<and>
         (\<forall>b m'. AddService regex_assign m (Some s) p = Inr (b, m') \<longrightarrow>
            \<not> b \<and> service_items m' = service_items m \<and>
            (\<forall>u sub_matches. GetService regex_match m' u sub_matches =
                               GetService regex_match m u sub_matches))"
proof -
  have a: "AddService regex_assign m (Some s) p = Inr (False, m)"
    unfolding AddService_def using assms by simp
  then have b: "RegisterService regex_assign m (Some s) p = Inr (False, m)"
    unfolding RegisterService_def .
  from a b show ?thesis by simp
qed

theorem AddService_invalid_pattern_unchanged_witness:
  "scenario_regex_assign ''('' [ECMAScript, icase] = None \<and>
   AddService scenario_regex_assign scenario_registry (Some ''broken'') ''('' =
     Inr (False, scenario_registry) \<and>
   RegisterService scenario_regex_assign scenario_registry (Some ''broken'') ''('' =
     Inr (False, scenario_registry)"
proof -
  have h: "scenario_regex_assign ''('' [ECMAScript, icase] = None"
    by (simp add: scenario_regex_assign_def)
  have "AddService scenario_regex_assign scenario_registry (Some ''broken'') ''('' =
          Inr (False, scenario_registry) \<and>
        RegisterService scenario_regex_assign scenario_registry (Some ''broken'') ''('' =
          Inr (False, scenario_registry) \<and>
         (\<forall>b m'. AddService scenario_regex_assign scenario_registry (Some ''broken'') ''('' =
              Inr (b, m') \<longrightarrow>
            \<not> b \<and> service_items m' = service_items scenario_registry \<and>
            (\<forall>u sub_matches. GetService scenario_regex_match m' u sub_matches =
                               GetService scenario_regex_match scenario_registry u sub_matches))"
    using h by (rule AddService_invalid_pattern_unchanged)
  with h show ?thesis by blast
qed

text \<open>
  Claim C4. The result of \<^verbatim>\<open>GetService\<close> is decided by the first entry whose pattern
  fully matches the path: its handler, and the caller's vector extended by
  \<^verbatim>\<open>match[1]\<close>, ..., \<^verbatim>\<open>match[size - 1]\<close> in this order (group 0 is left out). When no
  entry matches, the null service pointer is returned.
\<close>

theorem GetService_handler_and_captures:
  "GetService regex_match m u (Some v) =
     Inr (case find (\<lambda>item. regex_match (url_regex item) u \<noteq> None) (service_items m) of
            None \<Rightarrow> (None, v)
          | Some item \<Rightarrow>
              (service item,
               v @ (case regex_match (url_regex item) u of
                      Some match \<Rightarrow> map ((!) match) [1..<length match]
                    | None \<Rightarrow> [])))"
  unfolding GetService_def
  by (simp add: GetService_items_find [of regex_match "service_items m" u v])

theorem GetService_handler_and_captures_witness:
  "GetService scenario_regex_match scenario_registry ''/users/42'' (Some [''kept'']) =
     Inr (Some ''users'', [''kept'', ''42'']) \<and>
   GetService scenario_regex_match scenario_registry ''/users/abc'' (Some [''kept'']) =
     Inr (None, [''kept''])"
proof -
  have a: "GetService scenario_regex_match scenario_registry ''/users/42'' (Some [''kept'']) =
     Inr (Some ''users'', [''kept'', ''42''])"
    unfolding GetService_handler_and_captures
      [of scenario_regex_match scenario_registry "''/users/42''" "[''kept'']"]
    by (simp add: scenario_registry_def scenario_regex_match_def)
  have b: "GetService scenario_regex_match scenario_registry ''/users/abc'' (Some [''kept'']) =
     Inr (None, [''kept''])"
    unfolding GetService_handler_and_captures
      [of scenario_regex_match scenario_registry "''/users/abc''" "[''kept'']"]
    by (simp add: scenario_registry_def scenario_regex_match_def)
  from a b show ?thesis by simp
qed

lemma GetService_none:
  assumes "\<forall>item\<in>set (service_items m). regex_match (url_regex item) u = None"
  shows "GetService regex_match m u (Some v) = Inr (None, v)"
proof -
  have "GetService_items regex_match (service_items m) u v = (None, v)"
    using assms by (rule GetService_items_none)
  then show ?thesis unfolding GetService_def by simp
qed

text \<open>
  Claim C10. When no registered pattern fully matches the path, \<^verbatim>\<open>GetService\<close>
  returns the null pointer and the caller's vector as it was. Conversely, in a registry
  without null services (the \<^verbatim>\<open>assert\<close> of \<^verbatim>\<open>AddService\<close> admits no other), a null result
  means that no pattern matched and that the vector is unchanged.
\<close>

theorem GetService_not_found_keeps_sub_matches:
  "((\<forall>item\<in>set (service_items m). regex_match (url_regex item) u = None) \<longrightarrow>
      GetService regex_match m u (Some v) = Inr (None, v)) \<and>
   ((\<forall>item\<in>set (service_items m). service item \<noteq> None) \<and>
      GetService regex_match m u (Some v) = Inr (None, v') \<longrightarrow>
      v' = v \<and> (\<forall>item\<in>set (service_items m). regex_match (url_regex item) u = None))"
proof (intro conjI impI)
  assume "\<forall>item\<in>set (service_items m). regex_match (url_regex item) u = None"
  then show "GetService regex_match m u (Some v) = Inr (None, v)"
    by (rule GetService_none)
next
  assume a: "(\<forall>item\<in>set (service_items m). service item \<noteq> None) \<and>
      GetService regex_match m u (Some v) = Inr (None, v')"
  then have r: "GetService regex_match m u (Some v) = Inr (None, v')"
    by simp
  have none: "\<forall>item\<in>set (service_items m). regex_match (url_regex item) u = None"
  proof (rule ccontr)
    assume n: "\<not> (\<forall>item\<in>set (service_items m). regex_match (url_regex item) u = None)"
    have "(\<exists>i match. i < length (service_items m) \<and>
             regex_match (url_regex (service_items m ! i)) u = Some match \<and>
             (\<forall>k<i. regex_match (url_regex (service_items m ! k)) u = None)) \<or>
          (\<forall>item\<in>set (service_items m). regex_match (url_regex item) u = None)"
      by (rule GetService_items_cases)
    with n obtain i match where i: "i < length (service_items m)"
      "regex_match (url_regex (service_items m ! i)) u = Some match"
      "\<forall>k<i. regex_match (url_regex (service_items m ! k)) u = None"
      by blast
    have "GetService regex_match m u (Some v) =
        Inr (service (service_items m ! i), v @ map ((!) match) [1..<length match])"
      using i by (rule GetService_first)
    with r have "service (service_items m ! i) = None" by simp
    moreover have "service_items m ! i \<in> set (service_items m)"
      using i(1) by (rule nth_mem)
    ultimately show False using a by blast
  qed
  then have "GetService regex_match m u (Some v) = Inr (None, v)"
    by (rule GetService_none)
  with r show "v' = v" by simp
  from none show "\<forall>item\<in>set (service_items m). regex_match (url_regex item) u = None" .
qed

theorem GetService_not_found_keeps_sub_matches_witness:
  "service (service_items scenario_registry ! 0) \<noteq> None \<and>
   service (service_items scenario_registry ! 1) \<noteq> None \<and>
   length (service_items scenario_registry) = 2 \<and>
   GetService scenario_regex_match scenario_registry ''/users/abc'' (Some [''kept'']) =
     Inr (None, [''kept''])"
proof -
  have h: "\<forall>item\<in>set (service_items scenario_registry).
      scenario_regex_match (url_regex item) ''/users/abc'' = None"
    by (simp add: scenario_registry_def scenario_regex_match_def)
  have w: "\<forall>item\<in>set (service_items scenario_registry). service item \<noteq> None"
    by (simp add: scenario_registry_def)
  note th = GetService_not_found_keeps_sub_matches
      [of scenario_registry scenario_regex_match "''/users/abc''" "[''kept'']" "[''kept'']"]
  have r: "GetService scenario_regex_match scenario_registry ''/users/abc'' (Some [''kept'']) =
     Inr (None, [''kept''])"
    using th h by blast
  have "[''kept''] = [''kept''] \<and>
      (\<forall>item\<in>set (service_items scenario_registry).
         scenario_regex_match (url_regex item) ''/users/abc'' = None)"
    using th w r by blast
  moreover have "service (service_items scenario_registry ! 0) \<noteq> None \<and>
   service (service_items scenario_registry ! 1) \<noteq> None \<and>
   length (service_items scenario_registry) = 2"
    by (simp add: scenario_registry_def)
  ultimately show ?thesis using r by blast
qed

lemma HandleSession_find:
  "HandleSession Url_of regex_match Handle kTextJsonUtf8 m session =
     (let u = Url_of (req_url (session_request session)) in
      if \<not> IsValid u
      then Inr (kBadRequest,
                session\<lparr>session_calls := session_calls session @
                  [SetResponseStatusCall kBadRequest, SendResponseCall]\<rparr>)
      else
        (case find (\<lambda>item. regex_match (url_regex item) (path u) \<noteq> None) (service_items m) of
           None \<Rightarrow>
             Inr (kBadRequest,
                  session\<lparr>session_calls := session_calls session @
                    [SetResponseStatusCall kBadRequest, SendResponseCall]\<rparr>)
         | Some item \<Rightarrow>
             (case service item of
                None \<Rightarrow>
                  Inr (kBadRequest,
                       session\<lparr>session_calls := session_calls session @
                         [SetResponseStatusCall kBadRequest, SendResponseCall]\<rparr>)
              | Some s \<Rightarrow>
                  (let content =
                         Handle s (req_method (session_request session)) (req_content (session_request session)) []
                   in Inr (kOK,
                           session\<lparr>session_calls := session_calls session @
                             [SetResponseStatusCall kOK,
                              SetResponseContentCall kTextJsonUtf8 (length content) content,
                              SendResponseCall]\<rparr>)))))"
  by (simp add: HandleSession_def GetService_def Let_def
      GetService_items_find
        [of regex_match "service_items m" "path (Url_of (req_url (session_request session)))" "[]"]
      SetResponseStatus_def SetResponseContent_def SendResponse_def
      split: option.splits)

text \<open>
  Claim C2. In a registry without null services, \<^verbatim>\<open>HandleSession\<close> answers
  \<^verbatim>\<open>kBadRequest\<close> (400) when the target is not a valid URL, and then its result is the same
  for every registry (nothing is looked up); \<^verbatim>\<open>kBadRequest\<close> when the URL is valid and no
  pattern matches its path; and otherwise \<^verbatim>\<open>kOK\<close> (200) with the content type
  \<^verbatim>\<open>kTextJsonUtf8\<close> and the output of the handler of the first matching entry as body. In
  every case the calls added to the session are one \<^verbatim>\<open>SetResponseStatus\<close>, on success one
  \<^verbatim>\<open>SetResponseContent\<close>, and one final \<^verbatim>\<open>SendResponse\<close>.
\<close>

theorem HandleSession_outcomes:
  assumes "\<forall>item\<in>set (service_items m). service item \<noteq> None"
  shows "HandleSession Url_of regex_match Handle kTextJsonUtf8 m session =
     (let u = Url_of (req_url (session_request session));
          bad = Inr (kBadRequest,
                     session\<lparr>session_calls := session_calls session @
                       [SetResponseStatusCall kBadRequest, SendResponseCall]\<rparr>)
      in
      if \<not> IsValid u then bad
      else
        (case find (\<lambda>item. regex_match (url_regex item) (path u) \<noteq> None) (service_items m) of
           None \<Rightarrow> bad
         | Some item \<Rightarrow>
             (let content =
                    Handle (the (service item)) (req_method (session_request session))
                      (req_content (session_request session)) []
              in Inr (kOK,
                      session\<lparr>session_calls := session_calls session @
                        [SetResponseStatusCall kOK,
                         SetResponseContentCall kTextJsonUtf8 (length content) content,
                         SendResponseCall]\<rparr>)))) \<and>
     (\<not> IsValid (Url_of (req_url (session_request session))) \<longrightarrow>
        (\<forall>m'. HandleSession Url_of regex_match Handle kTextJsonUtf8 m' session =
               HandleSession Url_of regex_match Handle kTextJsonUtf8 m session)) \<and>
     (\<exists>status session' new.
        HandleSession Url_of regex_match Handle kTextJsonUtf8 m session = Inr (status, session') \<and>
        session_calls session' = session_calls session @ new \<and>
        count_list new SendResponseCall = 1 \<and>
        count_list new (SetResponseStatusCall status) = 1 \<and>
        length (filter (\<lambda>call. \<exists>st. call = SetResponseStatusCall st) new) = 1 \<and>
        last new = SendResponseCall) \<and>
     status_code kBadRequest = 400 \<and> status_code kOK = 200"
proof -
  let ?u = "Url_of (req_url (session_request session))"
  let ?P = "\<lambda>item. regex_match (url_regex item) (path ?u) \<noteq> None"
  have 1: "HandleSession Url_of regex_match Handle kTextJsonUtf8 m session =
     (let u = Url_of (req_url (session_request session));
          bad = Inr (kBadRequest,
                     session\<lparr>session_calls := session_calls session @
                       [SetResponseStatusCall kBadRequest, SendResponseCall]\<rparr>)
      in
      if \<not> IsValid u then bad
      else
        (case find (\<lambda>item. regex_match (url_regex item) (path u) \<noteq> None) (service_items m) of
           None \<Rightarrow> bad
         | Some item \<Rightarrow>
             (let content =
                    Handle (the (service item)) (req_method (session_request session))
                      (req_content (session_request session)) []
              in Inr (kOK,
                      session\<lparr>session_calls := session_calls session @
                        [SetResponseStatusCall kOK,
                         SetResponseContentCall kTextJsonUtf8 (length content) content,
                         SendResponseCall]\<rparr>))))"
  proof (cases "find ?P (service_items m)")
    case None
    then show ?thesis
      unfolding HandleSession_find Let_def by simp
  next
    case (Some item)
    then have "item \<in> set (service_items m)"
      by (auto simp: find_Some_iff)
    with assms obtain s where "service item = Some s"
      by auto
    with Some show ?thesis
      unfolding HandleSession_find Let_def by simp
  qed
  have 2: "\<not> IsValid (Url_of (req_url (session_request session))) \<longrightarrow>
        (\<forall>m'. HandleSession Url_of regex_match Handle kTextJsonUtf8 m' session =
               HandleSession Url_of regex_match Handle kTextJsonUtf8 m session)"
    by (simp add: HandleSession_def Let_def)
  have 3: "\<exists>status session' new.
        HandleSession Url_of regex_match Handle kTextJsonUtf8 m session = Inr (status, session') \<and>
        session_calls session' = session_calls session @ new \<and>
        count_list new SendResponseCall = 1 \<and>
        count_list new (SetResponseStatusCall status) = 1 \<and>
        length (filter (\<lambda>call. \<exists>st. call = SetResponseStatusCall st) new) = 1 \<and>
        last new = SendResponseCall"
    unfolding HandleSession_find Let_def
    by (auto split: option.splits)
  from 1 2 3 show ?thesis by simp
qed

theorem HandleSession_outcomes_witness:
  "HandleSession scenario_Url scenario_regex_match scenario_Handle ''application/json; charset=utf-8''
     scenario_registry (scenario_session ''not a url'') =
     Inr (kBadRequest,
          (scenario_session ''not a url'')
            \<lparr>session_calls := [SetResponseStatusCall kBadRequest, SendResponseCall]\<rparr>) \<and>
   HandleSession scenario_Url scenario_regex_match scenario_Handle ''application/json; charset=utf-8''
     scenario_registry (scenario_session ''/users/abc'') =
     Inr (kBadRequest,
          (scenario_session ''/users/abc'')
            \<lparr>session_calls := [SetResponseStatusCall kBadRequest, SendResponseCall]\<rparr>) \<and>
   HandleSession scenario_Url scenario_regex_match scenario_Handle ''application/json; charset=utf-8''
     scenario_registry (scenario_session ''/users/42'') =
     Inr (kOK,
          (scenario_session ''/users/42'')
            \<lparr>session_calls :=
               [SetResponseStatusCall kOK,
                SetResponseContentCall ''application/json; charset=utf-8'' 2 ''{}'',
                SendResponseCall]\<rparr>)"
proof -
  have h: "\<forall>item\<in>set (service_items scenario_registry). service item \<noteq> None"
    by (simp add: scenario_registry_def)
  note th = HandleSession_outcomes [OF h, of scenario_Url scenario_regex_match scenario_Handle
      "''application/json; charset=utf-8''"]
  have a: "HandleSession scenario_Url scenario_regex_match scenario_Handle
      ''application/json; charset=utf-8'' scenario_registry (scenario_session ''not a url'') =
     Inr (kBadRequest,
          (scenario_session ''not a url'')
            \<lparr>session_calls := [SetResponseStatusCall kBadRequest, SendResponseCall]\<rparr>)"
    using th [of "scenario_session ''not a url''"]
    by (simp add: scenario_Url_def scenario_session_def)
  have b: "HandleSession scenario_Url scenario_regex_match scenario_Handle
      ''application/json; charset=utf-8'' scenario_registry (scenario_session ''/users/abc'') =
     Inr (kBadRequest,
          (scenario_session ''/users/abc'')
            \<lparr>session_calls := [SetResponseStatusCall kBadRequest, SendResponseCall]\<rparr>)"
    using th [of "scenario_session ''/users/abc''"]
    by (simp add: scenario_Url_def scenario_session_def scenario_registry_def
        scenario_regex_match_def)
  have c: "HandleSession scenario_Url scenario_regex_match scenario_Handle
      ''application/json; charset=utf-8'' scenario_registry (scenario_session ''/users/42'') =
     Inr (kOK,
          (scenario_session ''/users/42'')
            \<lparr>session_calls :=
               [SetResponseStatusCall kOK,
                SetResponseContentCall ''application/json; charset=utf-8'' 2 ''{}'',
                SendResponseCall]\<rparr>)"
    using th [of "scenario_session ''/users/42''"]
    by (simp add: scenario_Url_def scenario_session_def scenario_registry_def
        scenario_regex_match_def scenario_Handle_def)
  from a b c show ?thesis by simp
qed

end
